theory Spec2Isabelle
  imports Complex_Main
begin

section \<open>Strings\<close>

text \<open>
  JavaScript strings are modelled as \<^typ>\<open>string\<close>; a \<^typ>\<open>char\<close> stands for a code unit
  in the range 0..255. \<open>is_ws\<close> is the white space that \<^verbatim>\<open>String.prototype.trim\<close> and the
  regular expression class \<^verbatim>\<open>\s\<close> recognise in that range: TAB, LF, VT, FF, CR, SPACE
  and NBSP.
\<close>

definition is_ws :: "char \<Rightarrow> bool" where
  "is_ws c = (of_char c \<in> {9, 10, 11, 12, 13, 32, 160 :: nat})"

text \<open>\<^verbatim>\<open>s.trim()\<close>: white space is removed at both ends.\<close>

definition trim :: "string \<Rightarrow> string" where
  "trim s = rev (dropWhile is_ws (rev (dropWhile is_ws s)))"

text \<open>
  \<^verbatim>\<open>s.replace(/\s+/g, '-')\<close>: scanning from the left, every maximal run of white space
  becomes one hyphen.
\<close>

function replace_ws :: "string \<Rightarrow> string" where
  "replace_ws [] = []"
| "replace_ws (c # cs) =
     (if is_ws c then CHR ''-'' # replace_ws (dropWhile is_ws cs)
      else c # replace_ws cs)"
  by pat_completeness auto
termination
  by (relation "measure length") (auto simp: length_dropWhile_le le_imp_less_Suc)

section \<open>Record extraction\<close>

record recipient =
  name :: string
  phone :: string
  email :: string

text \<open>
  A cell value is \<open>None\<close> when the cell is empty (\<^verbatim>\<open>null\<close>) and \<open>Some s\<close> when it holds a
  value whose \<^verbatim>\<open>toString()\<close> is \<open>s\<close>. A row is the list of its cells, column 1 first;
  \<^verbatim>\<open>row.getCell(c).value\<close> of a column beyond the last stored cell is \<^verbatim>\<open>null\<close>.
  A sheet is the sequence of (row number, row) pairs that \<^verbatim>\<open>worksheet.eachRow\<close>
  visits, in order.
\<close>

type_synonym cell = "string option"
type_synonym sheet_row = "cell list"
type_synonym sheet = "(nat \<times> sheet_row) list"

definition getCell :: "sheet_row \<Rightarrow> nat \<Rightarrow> cell" where
  "getCell row c = (if 1 \<le> c \<and> c \<le> length row then row ! (c - 1) else None)"

text \<open>\<^verbatim>\<open>row.getCell(c).value?.toString().trim()\<close>\<close>

definition cell_text :: "sheet_row \<Rightarrow> nat \<Rightarrow> string option" where
  "cell_text row c = map_option trim (getCell row c)"

text \<open>Truthiness of a value that is \<^verbatim>\<open>undefined\<close> or a string.\<close>

fun truthy :: "string option \<Rightarrow> bool" where
  "truthy None = False"
| "truthy (Some s) = (s \<noteq> [])"

text \<open>The callback of \<^verbatim>\<open>eachRow\<close>: the rows collected so far, and the row visited.\<close>

definition visit_row :: "recipient list \<Rightarrow> nat \<times> sheet_row \<Rightarrow> recipient list" where
  "visit_row rows p =
     (case p of (rowNumber, row) \<Rightarrow>
        if rowNumber > 1 then
          (let name = cell_text row 1; phone = cell_text row 2; email = cell_text row 3
           in if truthy name \<and> truthy phone \<and> truthy email
              then rows @ [\<lparr>name = the name, phone = the phone, email = the email\<rparr>]
              else rows)
        else rows)"

definition extract_rows :: "sheet \<Rightarrow> recipient list" where
  "extract_rows sh = foldl visit_row [] sh"

section \<open>Image renderer\<close>

text \<open>
  The canvas library is outside the repository. It is modelled by what the code relies on:
  \<^verbatim>\<open>loadImage\<close> yields an image with a width and a height, \<^verbatim>\<open>createCanvas(w, h)\<close> an
  empty canvas of that size, the drawing calls of the context add to the canvas without
  resizing it, and \<^verbatim>\<open>toBuffer('image/png')\<close> encodes the canvas at its size.
\<close>

record image =
  width :: nat
  height :: nat

datatype draw_op =
  DrawImage image int int
  | StrokeText string string rat int
  | FillText string string rat int

record canvas =
  canvas_width :: nat
  canvas_height :: nat
  drawn :: "draw_op list"

record png =
  png_width :: nat
  png_height :: nat
  png_content :: "draw_op list"

definition createCanvas :: "nat \<Rightarrow> nat \<Rightarrow> canvas" where
  "createCanvas w h = \<lparr>canvas_width = w, canvas_height = h, drawn = []\<rparr>"

definition draw :: "draw_op \<Rightarrow> canvas \<Rightarrow> canvas" where
  "draw d cv = cv\<lparr>drawn := drawn cv @ [d]\<rparr>"

definition toBuffer :: "canvas \<Rightarrow> png" where
  "toBuffer cv =
     \<lparr>png_width = canvas_width cv, png_height = canvas_height cv, png_content = drawn cv\<rparr>"

text \<open>
  The file \<^verbatim>\<open>generated/card-<k>.png\<close> is \<open>Card k\<close>; the directory \<^verbatim>\<open>generated\<close> is a map
  from these paths to the images stored there.
\<close>

datatype path = Card nat

type_synonym generated_dir = "path \<rightharpoonup> png"

text \<open>
  What the surroundings answer to the calls of one run. A message \<open>Some m\<close> means that the
  call throws an \<^verbatim>\<open>Error\<close> whose message is \<open>m\<close>. The calls made for a record are
  indexed by the loop counter \<open>i\<close> of that record.
\<close>

record env =
  readFileErr :: "string option"  \<comment> \<open>\<^verbatim>\<open>workbook.xlsx.readFile(filePath)\<close>\<close>
  worksheet :: "sheet option"  \<comment> \<open>\<^verbatim>\<open>workbook.getWorksheet(1)\<close>, \<^verbatim>\<open>undefined\<close> when absent\<close>
  templateExists :: bool  \<comment> \<open>\<^verbatim>\<open>fs.existsSync(templatePath)\<close>\<close>
  EMAIL :: "string option"  \<comment> \<open>\<^verbatim>\<open>process.env.EMAIL\<close>\<close>
  APP_PASSWORD :: "string option"  \<comment> \<open>\<^verbatim>\<open>process.env.APP_PASSWORD\<close>\<close>
  transportErr :: "string option"  \<comment> \<open>\<^verbatim>\<open>nodemailer.createTransporter({...})\<close>, a call into the mail library\<close>
  loadImage :: "nat \<Rightarrow> string + image"  \<comment> \<open>\<^verbatim>\<open>loadImage(templatePath)\<close> for record \<open>i\<close>\<close>
  writeErr :: "nat \<Rightarrow> string option"  \<comment> \<open>\<^verbatim>\<open>fs.writeFileSync(outputPath, buffer)\<close>\<close>
  sendErr :: "nat \<Rightarrow> string option"  \<comment> \<open>\<^verbatim>\<open>transporter.sendMail(mailOptions)\<close>\<close>
  unlinkErr :: "nat \<Rightarrow> string option"  \<comment> \<open>\<^verbatim>\<open>fs.unlinkSync(outputPath)\<close>\<close>

text \<open>
  \<open>generatePersonalizedImage\<close>: the result is \<open>Inl m\<close> when the function throws (its
  \<^verbatim>\<open>catch\<close> logs and rethrows), \<open>Inr outputPath\<close> when it returns; the second component is
  the directory afterwards. A failed write leaves the directory as it was.
\<close>

definition generatePersonalizedImage ::
  "env \<Rightarrow> nat \<Rightarrow> recipient \<Rightarrow> path \<Rightarrow> generated_dir \<Rightarrow> (string + path) \<times> generated_dir" where
  "generatePersonalizedImage e i data outputPath dir =
     (case loadImage e i of
        Inl m \<Rightarrow> (Inl m, dir)
      | Inr templateImage \<Rightarrow>
          (let cv0 = createCanvas (width templateImage) (height templateImage);
               cv1 = draw (DrawImage templateImage 0 0) cv0;
               centerX = of_nat (canvas_width cv1) / 2;
               nameY = int (canvas_height cv1) - 250;
               phoneY = int (canvas_height cv1) - 200;
               emailY = int (canvas_height cv1) - 150;
               cv2 = draw (StrokeText ''bold 36px Arial'' (name data) centerX nameY) cv1;
               cv3 = draw (FillText ''bold 36px Arial'' (name data) centerX nameY) cv2;
               cv4 = draw (StrokeText ''bold 28px Arial'' (''Phone: '' @ phone data) centerX phoneY) cv3;
               cv5 = draw (FillText ''bold 28px Arial'' (''Phone: '' @ phone data) centerX phoneY) cv4;
               cv6 = draw (StrokeText ''bold 24px Arial'' (''Email: '' @ email data) centerX emailY) cv5;
               cv7 = draw (FillText ''bold 24px Arial'' (''Email: '' @ email data) centerX emailY) cv6;
               buffer = toBuffer cv7
           in case writeErr e i of
                Some m \<Rightarrow> (Inl m, dir)
              | None \<Rightarrow> (Inr outputPath, dir(outputPath \<mapsto> buffer))))"

section \<open>Delivery agent\<close>

record attachment =
  filename :: string
  att_path :: path

record mail =
  mail_from :: "string option"
  mail_to :: string
  subject :: string
  html :: string
  attachments :: "attachment list"

definition html_before :: string where
  \<open>html_before = concat
     [[CHR 0x0A],
      ''      <div style="font-family: Arial, sans-serif; max-width: 600px; margin: 0 auto;">'', [CHR 0x0A],
      ''        <h2 style="color: #3B82F6;">Your Personalized Investment Card</h2>'', [CHR 0x0A],
      ''        <p>Dear '']\<close>

definition html_after :: string where
  \<open>html_after = concat
     ['',</p>'', [CHR 0x0A],
      ''        <p>Thank you for your interest in our Systematic Investment Plan. Please find your personalized investment card attached.</p>'', [CHR 0x0A],
      ''        <p>This card contains your contact information and highlights the key benefits of our investment approach.</p>'', [CHR 0x0A],
      ''        <p>For any questions or to start your investment journey, please contact us using the details provided on your card.</p>'', [CHR 0x0A],
      ''        <p>Best regards,<br>Investment Team</p>'', [CHR 0x0A],
      ''      </div>'', [CHR 0x0A],
      ''    '']\<close>

definition mailOptions :: "string option \<Rightarrow> recipient \<Rightarrow> path \<Rightarrow> mail" where
  "mailOptions sender recipient imagePath =
     \<lparr>mail_from = sender,
      mail_to = email recipient,
      subject = ''Your Personalized Investment Card'',
      html = html_before @ name recipient @ html_after,
      attachments =
        [\<lparr>filename = ''investment-card-'' @ replace_ws (name recipient) @ ''.png'',
          att_path = imagePath\<rparr>]\<rparr>"

text \<open>
  \<^verbatim>\<open>transporter.sendMail\<close>: the message is handed to the transport, which is the list of
  the messages handed over so far, and the call throws or not as the surroundings decide.
\<close>

definition sendMail :: "env \<Rightarrow> nat \<Rightarrow> mail \<Rightarrow> mail list \<Rightarrow> string option \<times> mail list" where
  "sendMail e i m outbox = (sendErr e i, outbox @ [m])"

definition sendEmail ::
  "env \<Rightarrow> nat \<Rightarrow> recipient \<Rightarrow> path \<Rightarrow> mail list \<Rightarrow> string option \<times> mail list" where
  "sendEmail e i recipient imagePath outbox =
     sendMail e i (mailOptions (EMAIL e) recipient imagePath) outbox"

section \<open>Batch orchestrator\<close>

record results =
  total_recs :: nat  \<comment> \<open>the field \<^verbatim>\<open>total\<close>\<close>
  success :: nat
  failed :: nat
  errors :: "string list"

text \<open>
  The payload of a progress or completion message, \<^verbatim>\<open>{ ...results, processing, currentIndex }\<close>;
  \<open>currentIndex\<close> is \<open>None\<close> when the object has no such field.
\<close>

record status = results +
  processing :: bool
  currentIndex :: "nat option"

datatype event = ProgressEvent status | CompleteEvent status | ErrorEvent string

text \<open>
  What a run acts on: the messages passed to \<^verbatim>\<open>ws.send\<close> in order, the directory
  \<^verbatim>\<open>generated\<close>, and the messages handed to the mail transport. \<^verbatim>\<open>ws.send\<close> is taken to
  accept every message. The branch in which it throws is not part of the model: at line
  206 the \<^verbatim>\<open>catch\<close> of the loop body would count the record as failed after it was counted
  as a success, at lines 183 and 220 the outer \<^verbatim>\<open>catch\<close> would run.
\<close>

record world =
  events :: "event list"
  generated :: generated_dir
  outbox :: "mail list"

definition snapshot :: "results \<Rightarrow> bool \<Rightarrow> nat option \<Rightarrow> status" where
  "snapshot r p c =
     \<lparr>total_recs = total_recs r, success = success r, failed = failed r, errors = errors r,
      processing = p, currentIndex = c\<rparr>"

definition ws_send :: "event \<Rightarrow> world \<Rightarrow> world" where
  "ws_send ev w = w\<lparr>events := events w @ [ev]\<rparr>"

text \<open>\<open>createTransporter\<close>: \<open>Some m\<close> when it throws, \<open>None\<close> when it returns a transporter.\<close>

definition createTransporter :: "env \<Rightarrow> string option" where
  "createTransporter e =
     (if \<not> truthy (EMAIL e) \<or> \<not> truthy (APP_PASSWORD e)
      then Some ''Email credentials not configured''
      else transportErr e)"

text \<open>The \<^verbatim>\<open>catch\<close> block of the loop body.\<close>

definition catch_row :: "recipient \<Rightarrow> string \<Rightarrow> results \<Rightarrow> results" where
  "catch_row row m r = r\<lparr>failed := failed r + 1, errors := errors r @ [name row @ '': '' @ m]\<rparr>"

text \<open>The body of the loop for the record \<open>row\<close> at index \<open>i\<close>.\<close>

definition process_row :: "env \<Rightarrow> nat \<Rightarrow> recipient \<Rightarrow> results \<times> world \<Rightarrow> results \<times> world" where
  "process_row e i row st =
     (case st of (r, w) \<Rightarrow>
        (let outputPath = Card (i + 1) in
         case generatePersonalizedImage e i row outputPath (generated w) of
           (Inl m, dir1) \<Rightarrow> (catch_row row m r, w\<lparr>generated := dir1\<rparr>)
         | (Inr _, dir1) \<Rightarrow>
             (case sendEmail e i row outputPath (outbox w) of
                (Some m, ob1) \<Rightarrow> (catch_row row m r, w\<lparr>generated := dir1, outbox := ob1\<rparr>)
              | (None, ob1) \<Rightarrow>
                  (let r1 = r\<lparr>success := success r + 1\<rparr> in
                   case unlinkErr e i of
                     Some m \<Rightarrow> (catch_row row m r1, w\<lparr>generated := dir1, outbox := ob1\<rparr>)
                   | None \<Rightarrow>
                       (r1, ws_send (ProgressEvent (snapshot r1 True (Some (i + 1))))
                              (w\<lparr>generated := dir1(outputPath := None), outbox := ob1\<rparr>))))))"

text \<open>\<^verbatim>\<open>for (let i = ...; i < rows.length; i++) { const row = rows[i]; ... }\<close>\<close>

function for_rows :: "env \<Rightarrow> recipient list \<Rightarrow> nat \<Rightarrow> results \<times> world \<Rightarrow> results \<times> world" where
  "for_rows e rows i st =
     (if i < length rows then for_rows e rows (i + 1) (process_row e i (rows ! i) st) else st)"
  by pat_completeness auto
termination
  by (relation "measure (\<lambda>(e, rows, i, st). length rows - i)") auto

declare for_rows.simps [simp del]

text \<open>
  The outer \<^verbatim>\<open>try\<close> block of \<open>processExcelFile\<close>: \<open>Inl m\<close> when it throws an error with
  message \<open>m\<close>, \<open>Inr results\<close> when it returns. A worksheet that is \<^verbatim>\<open>undefined\<close> makes
  the call of \<^verbatim>\<open>eachRow\<close> throw a \<^verbatim>\<open>TypeError\<close>.
\<close>

definition try_block :: "env \<Rightarrow> world \<Rightarrow> (string + results) \<times> world" where
  "try_block e w0 =
     (case readFileErr e of
        Some m \<Rightarrow> (Inl m, w0)
      | None \<Rightarrow>
          if \<not> templateExists e then (Inl ''Template image not found'', w0)
          else
            (case createTransporter e of
               Some m \<Rightarrow> (Inl m, w0)
             | None \<Rightarrow>
                 (case worksheet e of
                    None \<Rightarrow> (Inl ''Cannot read properties of undefined (reading 'eachRow')'', w0)
                  | Some sh \<Rightarrow>
                      (let rows = extract_rows sh;
                           results = \<lparr>total_recs = length rows, success = 0, failed = 0, errors = []\<rparr>;
                           w1 = ws_send (ProgressEvent (snapshot results True None)) w0
                       in case for_rows e rows 0 (results, w1) of
                            (r, w2) \<Rightarrow> (Inr r, ws_send (CompleteEvent (snapshot r False None)) w2)))))"

text \<open>\<open>processExcelFile\<close>: the outer \<^verbatim>\<open>catch\<close> sends the error message and rethrows.\<close>

definition processExcelFile :: "env \<Rightarrow> world \<Rightarrow> (string + results) \<times> world" where
  "processExcelFile e w0 =
     (case try_block e w0 of
        (Inl m, w) \<Rightarrow> (Inl m, ws_send (ErrorEvent m) w)
      | (Inr r, w) \<Rightarrow> (Inr r, w))"

text \<open>A world in which nothing has been sent yet.\<close>

definition fresh :: "generated_dir \<Rightarrow> world" where
  "fresh dir = \<lparr>events = [], generated = dir, outbox = []\<rparr>"

text \<open>
  The client reads the cursor of a payload as \<^verbatim>\<open>status.currentIndex || 0\<close> (\<^verbatim>\<open>App.tsx\<close>).
\<close>

definition cursor :: "status \<Rightarrow> nat" where
  "cursor s = (case currentIndex s of None \<Rightarrow> 0 | Some k \<Rightarrow> k)"

section \<open>Notions used by the statements\<close>

text \<open>The payloads of the progress and completion messages, in the order sent.\<close>

primrec payload :: "event \<Rightarrow> status list" where
  "payload (ProgressEvent s) = [s]"
| "payload (CompleteEvent s) = [s]"
| "payload (ErrorEvent m) = []"

primrec progress_payload :: "event \<Rightarrow> status list" where
  "progress_payload (ProgressEvent s) = [s]"
| "progress_payload (CompleteEvent s) = []"
| "progress_payload (ErrorEvent m) = []"

definition payloads :: "event list \<Rightarrow> status list" where
  "payloads evs = concat (map payload evs)"

definition progress_payloads :: "event list \<Rightarrow> status list" where
  "progress_payloads evs = concat (map progress_payload evs)"

text \<open>
  The run gets past every throw that precedes the loop, and \<open>sh\<close> is the sheet it reads.
\<close>

definition starts :: "env \<Rightarrow> sheet \<Rightarrow> bool" where
  "starts e sh =
     (readFileErr e = None \<and> templateExists e \<and> createTransporter e = None \<and> worksheet e = Some sh)"

text \<open>The message with which \<open>generatePersonalizedImage\<close> throws for record \<open>i\<close>, if it does.\<close>

definition render_err :: "env \<Rightarrow> nat \<Rightarrow> string option" where
  "render_err e i = (case loadImage e i of Inl m \<Rightarrow> Some m | Inr t \<Rightarrow> writeErr e i)"

text \<open>The message that reaches the \<^verbatim>\<open>catch\<close> of the loop body for record \<open>i\<close>, if any.\<close>

definition caught :: "env \<Rightarrow> nat \<Rightarrow> string option" where
  "caught e i =
     (case render_err e i of
        Some m \<Rightarrow> Some m
      | None \<Rightarrow> (case sendErr e i of Some m \<Rightarrow> Some m | None \<Rightarrow> unlinkErr e i))"

text \<open>Rendering and sending both return for record \<open>i\<close>.\<close>

definition delivered :: "env \<Rightarrow> nat \<Rightarrow> bool" where
  "delivered e i = (render_err e i = None \<and> sendErr e i = None)"

text \<open>The entry of the error list for record \<open>j\<close>.\<close>

definition error_entry :: "env \<Rightarrow> recipient list \<Rightarrow> nat \<Rightarrow> string" where
  "error_entry e rows j = name (rows ! j) @ '': '' @ the (caught e j)"

text \<open>
  The payload of the progress message that follows record \<open>i\<close> when nothing was caught for
  it, written from the outcomes of the records up to \<open>i\<close>.
\<close>

definition progress_after :: "env \<Rightarrow> recipient list \<Rightarrow> nat \<Rightarrow> status" where
  "progress_after e rows i =
     \<lparr>total_recs = length rows,
      success = length (filter (delivered e) [0..<i + 1]),
      failed = length (filter (\<lambda>j. caught e j \<noteq> None) [0..<i + 1]),
      errors = map (error_entry e rows) (filter (\<lambda>j. caught e j \<noteq> None) [0..<i + 1]),
      processing = True, currentIndex = Some (i + 1)\<rparr>"

text \<open>
  The words of the specification for a row that becomes a record: it comes after the
  header row, and each of its first three cells is present and not blank once trimmed.
\<close>

definition nonblank :: "cell \<Rightarrow> bool" where
  "nonblank c = (case c of None \<Rightarrow> False | Some s \<Rightarrow> trim s \<noteq> [])"

definition is_record :: "nat \<times> sheet_row \<Rightarrow> bool" where
  "is_record p =
     (fst p > 1 \<and> nonblank (getCell (snd p) 1) \<and> nonblank (getCell (snd p) 2)
      \<and> nonblank (getCell (snd p) 3))"

definition recipient_of :: "nat \<times> sheet_row \<Rightarrow> recipient" where
  "recipient_of p =
     \<lparr>name = trim (the (getCell (snd p) 1)), phone = trim (the (getCell (snd p) 2)),
      email = trim (the (getCell (snd p) 3))\<rparr>"

section \<open>Sample inputs\<close>

definition header_row :: "nat \<times> sheet_row" where
  "header_row = (1, [Some ''Name'', Some ''Phone'', Some ''Email''])"

definition sheet_one :: sheet where
  "sheet_one = [header_row, (2, [Some ''Ann Lee'', Some ''9876543210'', Some ''ann@example.com''])]"

definition sheet_three :: sheet where
  "sheet_three =
     [header_row,
      (2, [Some ''Ann Lee'', Some ''9876543210'', Some ''ann@example.com'']),
      (3, [Some '' Bob  K '', Some ''9876543211'', Some ''bob@example.com'']),
      (4, [Some ''Cy'', Some ''9876543212'', Some ''cy@example.com''])]"

definition sheet_five :: sheet where
  "sheet_five =
     [header_row,
      (2, [Some ''Ann Lee'', Some ''9876543210'', Some ''ann@example.com'']),
      (3, [Some '' Bob  K '', Some ''9876543211'', Some ''bob@example.com'']),
      (4, [Some ''Cy'', Some ''9876543212'', Some ''   '']),
      (5, [Some ''Di'', Some ''9876543213'', Some ''di@example.com'']),
      (6, [Some ''Ed'', Some ''9876543214'', Some ''ed@example.com''])]"

definition never :: "nat \<Rightarrow> string option" where
  "never i = None"

definition only_at :: "nat \<Rightarrow> string \<Rightarrow> nat \<Rightarrow> string option" where
  "only_at k m i = (if i = k then Some m else None)"

text \<open>
  Surroundings in which the file is read, the template exists and loads as an 800 by 600
  image, the sender is configured and every write succeeds; \<open>s\<close> and \<open>u\<close> say which
  calls of \<^verbatim>\<open>sendMail\<close> and of \<^verbatim>\<open>unlinkSync\<close> throw. The call into the mail library
  returns a transporter: the module bound to \<^verbatim>\<open>nodemailer\<close> has a function of the name
  \<^verbatim>\<open>createTransporter\<close> that line 64 calls, as a test double of the library has.
\<close>

definition sample_env :: "sheet \<Rightarrow> (nat \<Rightarrow> string option) \<Rightarrow> (nat \<Rightarrow> string option) \<Rightarrow> env" where
  "sample_env sh s u =
     \<lparr>readFileErr = None, worksheet = Some sh, templateExists = True,
      EMAIL = Some ''sender@example.com'', APP_PASSWORD = Some ''secret'', transportErr = None,
      loadImage = (\<lambda>i. Inr \<lparr>width = 800, height = 600\<rparr>), writeErr = never,
      sendErr = s, unlinkErr = u\<rparr>"

text \<open>
  The same surroundings with the mail library as published: the package \<^verbatim>\<open>nodemailer\<close>
  names its factory \<^verbatim>\<open>createTransport\<close> and has no \<^verbatim>\<open>createTransporter\<close>, so the call of
  line 64 throws a \<^verbatim>\<open>TypeError\<close> for every configured sender.
\<close>

definition published_env :: "sheet \<Rightarrow> (nat \<Rightarrow> string option) \<Rightarrow> (nat \<Rightarrow> string option) \<Rightarrow> env" where
  "published_env sh s u =
     (sample_env sh s u)\<lparr>transportErr := Some ''nodemailer.createTransporter is not a function''\<rparr>"

section \<open>White space\<close>

lemma hyphen_not_ws [simp]: "\<not> is_ws CHR ''-''"
  by (simp add: is_ws_def)

lemma dropWhile_all_iff: "(\<forall>x\<in>set (dropWhile P xs). P x) = (\<forall>x\<in>set xs. P x)"
proof
  assume a: "\<forall>x\<in>set (dropWhile P xs). P x"
  have "dropWhile P xs = []"
  proof (rule ccontr)
    assume n: "dropWhile P xs \<noteq> []"
    then have "\<not> P (hd (dropWhile P xs))" by (rule hd_dropWhile)
    moreover from n have "hd (dropWhile P xs) \<in> set (dropWhile P xs)" by simp
    ultimately show False using a by blast
  qed
  then show "\<forall>x\<in>set xs. P x" by simp
next
  assume "\<forall>x\<in>set xs. P x"
  then show "\<forall>x\<in>set (dropWhile P xs). P x" by (meson set_dropWhileD)
qed

lemma trim_blank: "(trim s = []) = list_all is_ws s"
proof -
  have "(trim s = []) = (\<forall>x\<in>set (rev (dropWhile is_ws s)). is_ws x)"
    by (simp add: trim_def)
  also have "\<dots> = (\<forall>x\<in>set (dropWhile is_ws s). is_ws x)" by simp
  also have "\<dots> = (\<forall>x\<in>set s. is_ws x)" by (rule dropWhile_all_iff)
  finally show ?thesis by (simp add: list_all_iff)
qed

lemma replace_ws_no_ws: "c \<in> set (replace_ws s) \<Longrightarrow> \<not> is_ws c"
proof (induction s rule: replace_ws.induct)
  case 1
  then show ?case by simp
next
  case (2 d ds)
  then show ?case by (auto split: if_splits)
qed

lemma replace_ws_id: "\<forall>c\<in>set s. \<not> is_ws c \<Longrightarrow> replace_ws s = s"
  by (induction s) auto

lemma replace_ws_run:
  assumes "w \<noteq> []" and "\<forall>c\<in>set w. is_ws c" and "v = [] \<or> \<not> is_ws (hd v)"
  shows "replace_ws (w @ v) = CHR ''-'' # replace_ws v"
proof -
  from assms(1) obtain c cs where w: "w = c # cs" by (cases w) auto
  have "dropWhile is_ws (cs @ v) = dropWhile is_ws v"
    using assms(2) w by simp
  also have "\<dots> = v" using assms(3) by (cases v) auto
  finally show ?thesis using assms(2) w by simp
qed

lemma replace_ws_append:
  "u = [] \<or> \<not> is_ws (last u) \<Longrightarrow> replace_ws (u @ x) = replace_ws u @ replace_ws x"
proof (induction u rule: replace_ws.induct)
  case 1
  then show ?case by simp
next
  case (2 c cs)
  show ?case
  proof (cases "is_ws c")
    case False
    have "cs = [] \<or> \<not> is_ws (last cs)" using "2.prems" by (cases cs) auto
    with False "2.IH"(2) show ?thesis by simp
  next
    case True
    with "2.prems" have ne: "cs \<noteq> []" by auto
    with "2.prems" have l: "\<not> is_ws (last cs)" by simp
    from ne have "last cs \<in> set cs" by simp
    with l have ex: "\<exists>y\<in>set cs. \<not> is_ws y" by blast
    then have d: "dropWhile is_ws (cs @ x) = dropWhile is_ws cs @ x"
      by (metis dropWhile_append1)
    from ex have dne: "dropWhile is_ws cs \<noteq> []" by simp
    have "last (dropWhile is_ws cs) = last cs"
      by (metis dne last_appendR takeWhile_dropWhile_id)
    with l dne True "2.IH"(1) have
      "replace_ws (dropWhile is_ws cs @ x) = replace_ws (dropWhile is_ws cs) @ replace_ws x"
      by simp
    with True d show ?thesis by simp
  qed
qed

section \<open>Extraction\<close>

lemma truthy_cell_text: "truthy (cell_text row c) = nonblank (getCell row c)"
  by (cases "getCell row c") (simp_all add: cell_text_def nonblank_def)

lemma the_cell_text: "nonblank (getCell row c) \<Longrightarrow> the (cell_text row c) = trim (the (getCell row c))"
  by (cases "getCell row c") (simp_all add: cell_text_def nonblank_def)

lemma visit_row_eq:
  "visit_row rows p = rows @ (if is_record p then [recipient_of p] else [])"
  by (cases p)
    (simp add: visit_row_def is_record_def recipient_of_def truthy_cell_text the_cell_text Let_def)

lemma foldl_visit_row:
  "foldl visit_row acc sh = acc @ map recipient_of (filter is_record sh)"
  by (induction sh arbitrary: acc) (simp_all add: visit_row_eq)

lemma extract_rows_eq: "extract_rows sh = map recipient_of (filter is_record sh)"
  by (simp add: extract_rows_def foldl_visit_row)

section \<open>The loop\<close>

lemma render_fst:
  "fst (generatePersonalizedImage e i d p dir) =
     (case render_err e i of Some m \<Rightarrow> Inl m | None \<Rightarrow> Inr p)"
  by (simp add: generatePersonalizedImage_def render_err_def Let_def split: sum.splits option.splits)

lemma process_row_total:
  "total_recs (fst (process_row e i row (r, w))) = total_recs r"
  by (simp add: process_row_def catch_row_def Let_def split: prod.splits sum.splits option.splits)

lemma process_row_success:
  "success (fst (process_row e i row (r, w))) = success r + (if delivered e i then 1 else 0)"
  using render_fst [of e i row "Card (i + 1)" "generated w"]
  by (auto simp: process_row_def catch_row_def sendEmail_def sendMail_def delivered_def Let_def
      split: prod.splits sum.splits option.splits)

lemma process_row_failed:
  "failed (fst (process_row e i row (r, w))) = failed r + (if caught e i = None then 0 else 1)"
  using render_fst [of e i row "Card (i + 1)" "generated w"]
  by (auto simp: process_row_def catch_row_def sendEmail_def sendMail_def caught_def Let_def
      split: prod.splits sum.splits option.splits)

lemma process_row_errors:
  "errors (fst (process_row e i row (r, w))) =
     errors r @ (if caught e i = None then [] else [name row @ '': '' @ the (caught e i)])"
  using render_fst [of e i row "Card (i + 1)" "generated w"]
  by (auto simp: process_row_def catch_row_def sendEmail_def sendMail_def caught_def Let_def
      split: prod.splits sum.splits option.splits)

lemma process_row_events:
  "events (snd (process_row e i row (r, w))) =
     events w @ (if caught e i = None
       then [ProgressEvent (snapshot (r\<lparr>success := success r + 1\<rparr>) True (Some (i + 1)))]
       else [])"
  using render_fst [of e i row "Card (i + 1)" "generated w"]
  by (auto simp: process_row_def catch_row_def sendEmail_def sendMail_def caught_def ws_send_def Let_def
      split: prod.splits sum.splits option.splits)

lemma process_row_outbox:
  "outbox (snd (process_row e i row (r, w))) =
     outbox w @ (if render_err e i = None then [mailOptions (EMAIL e) row (Card (i + 1))] else [])"
  using render_fst [of e i row "Card (i + 1)" "generated w"]
  by (auto simp: process_row_def catch_row_def sendEmail_def sendMail_def ws_send_def Let_def
      split: prod.splits sum.splits option.splits)

lemma for_rows_rule:
  assumes "P i st"
    and "\<And>j s. i \<le> j \<Longrightarrow> j < length rows \<Longrightarrow> P j s \<Longrightarrow> P (Suc j) (process_row e j (rows ! j) s)"
    and "i \<le> length rows"
  shows "P (length rows) (for_rows e rows i st)"
  using assms
proof (induction e rows i st rule: for_rows.induct)
  case (1 e rows i st)
  show ?case
  proof (cases "i < length rows")
    case True
    have "P (Suc i) (process_row e i (rows ! i) st)"
      using "1.prems"(1,2) True by simp
    then have "P (length rows) (for_rows e rows (i + 1) (process_row e i (rows ! i) st))"
      using "1.IH" [OF True] "1.prems"(2) True by simp
    then show ?thesis using True by (simp add: for_rows.simps [of e rows i])
  next
    case False
    then have "for_rows e rows i st = st" by (simp add: for_rows.simps [of e rows i])
    moreover from False "1.prems"(3) have "i = length rows" by simp
    ultimately show ?thesis using "1.prems"(1) by simp
  qed
qed

lemma try_block_starts:
  assumes "starts e sh"
  shows "try_block e w0 =
    (case for_rows e (extract_rows sh) 0
        (\<lparr>total_recs = length (extract_rows sh), success = 0, failed = 0, errors = []\<rparr>,
         ws_send (ProgressEvent \<lparr>total_recs = length (extract_rows sh), success = 0, failed = 0,
           errors = [], processing = True, currentIndex = None\<rparr>) w0) of
       (r, w2) \<Rightarrow> (Inr r, ws_send (CompleteEvent (snapshot r False None)) w2))"
  using assms by (simp add: starts_def try_block_def snapshot_def Let_def)

lemma for_rows_results:
  assumes "for_rows e rows 0 (r0, w1) = (r, w)"
  shows "total_recs r = total_recs r0"
    and "success r = success r0 + length (filter (delivered e) [0..<length rows])"
    and "failed r = failed r0 + length (filter (\<lambda>j. caught e j \<noteq> None) [0..<length rows])"
    and "errors r = errors r0 @ map (error_entry e rows) (filter (\<lambda>j. caught e j \<noteq> None) [0..<length rows])"
    and "outbox w = outbox w1 @
      map (\<lambda>j. mailOptions (EMAIL e) (rows ! j) (Card (j + 1)))
        (filter (\<lambda>j. render_err e j = None) [0..<length rows])"
proof -
  let ?P = "\<lambda>(j::nat) (s::results \<times> world). total_recs (fst s) = total_recs r0
      \<and> success (fst s) = success r0 + length (filter (delivered e) [0..<j])
      \<and> failed (fst s) = failed r0 + length (filter (\<lambda>j. caught e j \<noteq> None) [0..<j])
      \<and> errors (fst s) = errors r0 @ map (error_entry e rows) (filter (\<lambda>j. caught e j \<noteq> None) [0..<j])
      \<and> outbox (snd s) = outbox w1 @
          map (\<lambda>j. mailOptions (EMAIL e) (rows ! j) (Card (j + 1)))
            (filter (\<lambda>j. render_err e j = None) [0..<j])"
  have "?P (length rows) (for_rows e rows 0 (r0, w1))"
  proof (rule for_rows_rule)
    show "?P 0 (r0, w1)" by simp
  next
    fix j s
    assume "?P j s"
    then show "?P (Suc j) (process_row e j (rows ! j) s)"
      by (cases s)
        (simp add: process_row_total process_row_success process_row_failed
          process_row_errors process_row_outbox error_entry_def)
  qed simp
  with assms show "total_recs r = total_recs r0"
    and "success r = success r0 + length (filter (delivered e) [0..<length rows])"
    and "failed r = failed r0 + length (filter (\<lambda>j. caught e j \<noteq> None) [0..<length rows])"
    and "errors r = errors r0 @ map (error_entry e rows) (filter (\<lambda>j. caught e j \<noteq> None) [0..<length rows])"
    and "outbox w = outbox w1 @
      map (\<lambda>j. mailOptions (EMAIL e) (rows ! j) (Card (j + 1)))
        (filter (\<lambda>j. render_err e j = None) [0..<length rows])"
    by simp_all
qed

lemma process_row_keeps_length:
  "length (errors r) = failed r \<Longrightarrow>
   length (errors (fst (process_row e i row (r, w)))) = failed (fst (process_row e i row (r, w)))"
  by (simp add: process_row_failed process_row_errors)

lemma payloads_append [simp]: "payloads (xs @ ys) = payloads xs @ payloads ys"
  by (simp add: payloads_def)

lemma progress_payloads_append [simp]:
  "progress_payloads (xs @ ys) = progress_payloads xs @ progress_payloads ys"
  by (simp add: progress_payloads_def)

lemma payloads_simps [simp]:
  "payloads [] = []" "payloads (ev # evs) = payload ev @ payloads evs"
  by (simp_all add: payloads_def)

lemma progress_payloads_simps [simp]:
  "progress_payloads [] = []"
  "progress_payloads (ev # evs) = progress_payload ev @ progress_payloads evs"
  by (simp_all add: progress_payloads_def)

lemma for_rows_lengths:
  assumes "for_rows e rows 0 (r0, w1) = (r, w)"
    and "length (errors r0) = failed r0"
    and "list_all (\<lambda>s. length (errors s) = failed s) (payloads (events w1))"
  shows "length (errors r) = failed r \<and> list_all (\<lambda>s. length (errors s) = failed s) (payloads (events w))"
proof -
  let ?P = "\<lambda>(j::nat) (s::results \<times> world). length (errors (fst s)) = failed (fst s)
      \<and> list_all (\<lambda>s. length (errors s) = failed s) (payloads (events (snd s)))"
  have "?P (length rows) (for_rows e rows 0 (r0, w1))"
  proof (rule for_rows_rule)
    show "?P 0 (r0, w1)" using assms(2,3) by simp
  next
    fix j s
    assume "?P j s"
    then show "?P (Suc j) (process_row e j (rows ! j) s)"
      by (cases s)
        (simp add: process_row_failed process_row_errors process_row_events snapshot_def)
  qed simp
  with assms(1) show ?thesis by simp
qed

lemma process_row_failure:
  assumes "render_err e i = Some m \<or> (render_err e i = None \<and> sendErr e i = Some m)"
  shows "fst (process_row e i row (r, w)) =
    r\<lparr>failed := failed r + 1, errors := errors r @ [name row @ '': '' @ m]\<rparr>"
  using assms render_fst [of e i row "Card (i + 1)" "generated w"]
  by (auto simp: process_row_def catch_row_def sendEmail_def sendMail_def Let_def
      split: prod.splits sum.splits option.splits)

lemma run_starts:
  assumes "starts e sh"
  shows "\<exists>r w2. for_rows e (extract_rows sh) 0
        (\<lparr>total_recs = length (extract_rows sh), success = 0, failed = 0, errors = []\<rparr>,
         ws_send (ProgressEvent \<lparr>total_recs = length (extract_rows sh), success = 0, failed = 0,
           errors = [], processing = True, currentIndex = None\<rparr>) w0) = (r, w2)
      \<and> processExcelFile e w0 = (Inr r, ws_send (CompleteEvent (snapshot r False None)) w2)"
  by (cases "for_rows e (extract_rows sh) 0
        (\<lparr>total_recs = length (extract_rows sh), success = 0, failed = 0, errors = []\<rparr>,
         ws_send (ProgressEvent \<lparr>total_recs = length (extract_rows sh), success = 0, failed = 0,
           errors = [], processing = True, currentIndex = None\<rparr>) w0)")
    (simp add: processExcelFile_def try_block_starts [OF assms])

lemma run_results:
  assumes "starts e sh"
  shows "\<exists>r w. processExcelFile e w0 = (Inr r, w)
      \<and> total_recs r = length (extract_rows sh)
      \<and> success r = length (filter (delivered e) [0..<length (extract_rows sh)])
      \<and> failed r = length (filter (\<lambda>j. caught e j \<noteq> None) [0..<length (extract_rows sh)])
      \<and> errors r = map (error_entry e (extract_rows sh))
           (filter (\<lambda>j. caught e j \<noteq> None) [0..<length (extract_rows sh)])
      \<and> outbox w = outbox w0 @
           map (\<lambda>j. mailOptions (EMAIL e) (extract_rows sh ! j) (Card (j + 1)))
             (filter (\<lambda>j. render_err e j = None) [0..<length (extract_rows sh)])"
proof -
  from run_starts [OF assms, of w0] obtain r w2 where
    l: "for_rows e (extract_rows sh) 0
        (\<lparr>total_recs = length (extract_rows sh), success = 0, failed = 0, errors = []\<rparr>,
         ws_send (ProgressEvent \<lparr>total_recs = length (extract_rows sh), success = 0, failed = 0,
           errors = [], processing = True, currentIndex = None\<rparr>) w0) = (r, w2)"
    and p: "processExcelFile e w0 = (Inr r, ws_send (CompleteEvent (snapshot r False None)) w2)"
    by blast
  from for_rows_results [OF l] p show ?thesis by (simp add: ws_send_def)
qed

lemma run_fatal:
  "\<forall>sh. \<not> starts e sh \<Longrightarrow>
   \<exists>m. processExcelFile e w0 = (Inl m, w0\<lparr>events := events w0 @ [ErrorEvent m]\<rparr>)"
  by (auto simp: starts_def processExcelFile_def try_block_def ws_send_def split: option.splits)

lemma run_lengths:
  assumes "starts e sh"
  shows "\<exists>r w. processExcelFile e (fresh dir) = (Inr r, w) \<and> length (errors r) = failed r
      \<and> list_all (\<lambda>s. length (errors s) = failed s) (payloads (events w))"
proof -
  from run_starts [OF assms, of "fresh dir"] obtain r w2 where
    l: "for_rows e (extract_rows sh) 0
        (\<lparr>total_recs = length (extract_rows sh), success = 0, failed = 0, errors = []\<rparr>,
         ws_send (ProgressEvent \<lparr>total_recs = length (extract_rows sh), success = 0, failed = 0,
           errors = [], processing = True, currentIndex = None\<rparr>) (fresh dir)) = (r, w2)"
    and p: "processExcelFile e (fresh dir) = (Inr r, ws_send (CompleteEvent (snapshot r False None)) w2)"
    by blast
  from for_rows_lengths [OF l] have
    "length (errors r) = failed r \<and> list_all (\<lambda>s. length (errors s) = failed s) (payloads (events w2))"
    by (simp add: ws_send_def fresh_def)
  with p show ?thesis by (simp add: ws_send_def snapshot_def)
qed

lemma nonblank_iff: "nonblank c = (\<exists>s. c = Some s \<and> \<not> list_all is_ws s)"
  by (cases c) (simp_all add: nonblank_def trim_blank)

section \<open>The messages of a run\<close>

lemma caught_None_delivered: "caught e i = None \<Longrightarrow> delivered e i"
  by (simp add: caught_def delivered_def split: option.splits)

lemma for_rows_events:
  assumes "for_rows e rows 0
      (\<lparr>total_recs = length rows, success = 0, failed = 0, errors = []\<rparr>, w1) = (r, w)"
  shows "events w = events w1 @
      map (\<lambda>j. ProgressEvent (progress_after e rows j)) (filter (\<lambda>j. caught e j = None) [0..<length rows])"
proof -
  let ?P = "\<lambda>(j::nat) (s::results \<times> world).
      total_recs (fst s) = length rows
      \<and> success (fst s) = length (filter (delivered e) [0..<j])
      \<and> failed (fst s) = length (filter (\<lambda>j. caught e j \<noteq> None) [0..<j])
      \<and> errors (fst s) = map (error_entry e rows) (filter (\<lambda>j. caught e j \<noteq> None) [0..<j])
      \<and> events (snd s) = events w1 @
          map (\<lambda>j. ProgressEvent (progress_after e rows j)) (filter (\<lambda>j. caught e j = None) [0..<j])"
  have "?P (length rows)
      (for_rows e rows 0 (\<lparr>total_recs = length rows, success = 0, failed = 0, errors = []\<rparr>, w1))"
  proof (rule for_rows_rule [where P = ?P])
    show "?P 0 (\<lparr>total_recs = length rows, success = 0, failed = 0, errors = []\<rparr>, w1)" by simp
  next
    fix j s
    assume "?P j s"
    then show "?P (Suc j) (process_row e j (rows ! j) s)"
      by (cases s)
        (simp add: process_row_total process_row_success process_row_failed
          process_row_errors process_row_events error_entry_def progress_after_def
          snapshot_def caught_None_delivered)
  qed simp
  with assms show ?thesis by simp
qed

lemma run_events:
  assumes "starts e sh"
  shows "\<exists>r w. processExcelFile e (fresh dir) = (Inr r, w)
    \<and> events w =
        ProgressEvent \<lparr>total_recs = length (extract_rows sh), success = 0, failed = 0,
           errors = [], processing = True, currentIndex = None\<rparr>
        # map (\<lambda>j. ProgressEvent (progress_after e (extract_rows sh) j))
            (filter (\<lambda>j. caught e j = None) [0..<length (extract_rows sh)])
        @ [CompleteEvent (snapshot r False None)]"
proof -
  from run_starts [OF assms, of "fresh dir"] obtain r w2 where
    l: "for_rows e (extract_rows sh) 0
        (\<lparr>total_recs = length (extract_rows sh), success = 0, failed = 0, errors = []\<rparr>,
         ws_send (ProgressEvent \<lparr>total_recs = length (extract_rows sh), success = 0, failed = 0,
           errors = [], processing = True, currentIndex = None\<rparr>) (fresh dir)) = (r, w2)"
    and p: "processExcelFile e (fresh dir) = (Inr r, ws_send (CompleteEvent (snapshot r False None)) w2)"
    by blast
  from for_rows_events [OF l] p show ?thesis by (simp add: ws_send_def fresh_def)
qed

text \<open>The number of progress messages of a run: one, and one more for each record for
  which nothing is caught.\<close>

lemma progress_payloads_map:
  "progress_payloads (map (\<lambda>j. ProgressEvent (f j)) js) = map f js"
  by (induction js) simp_all

lemma progress_count:
  assumes "starts e sh"
  shows "length (progress_payloads (events (snd (processExcelFile e (fresh dir))))) =
    1 + length (filter (\<lambda>j. caught e j = None) [0..<length (extract_rows sh)])"
proof -
  from run_events [OF assms, of dir] obtain r w where
    "processExcelFile e (fresh dir) = (Inr r, w)"
    and "events w =
        ProgressEvent \<lparr>total_recs = length (extract_rows sh), success = 0, failed = 0,
           errors = [], processing = True, currentIndex = None\<rparr>
        # map (\<lambda>j. ProgressEvent (progress_after e (extract_rows sh) j))
            (filter (\<lambda>j. caught e j = None) [0..<length (extract_rows sh)])
        @ [CompleteEvent (snapshot r False None)]"
    by blast
  then show ?thesis by (simp add: progress_payloads_map)
qed

lemma counted_once:
  assumes "\<forall>j<k. \<not> (delivered e j \<and> caught e j \<noteq> None)"
  shows "length (filter (delivered e) [0..<k]) + length (filter (\<lambda>j. caught e j \<noteq> None) [0..<k]) = k"
  using assms
proof (induction k)
  case 0
  then show ?case by simp
next
  case (Suc k)
  then have "length (filter (delivered e) [0..<k]) + length (filter (\<lambda>j. caught e j \<noteq> None) [0..<k]) = k"
    by simp
  moreover have "delivered e k \<noteq> (caught e k \<noteq> None)"
    using Suc.prems caught_None_delivered [of e k] by auto
  ultimately show ?case by auto
qed

text \<open>When no record is both delivered and caught, the counters add up.\<close>

lemma counters_add_up:
  assumes "starts e sh"
    and "\<forall>j<length (extract_rows sh). \<not> (delivered e j \<and> caught e j \<noteq> None)"
  shows "list_all (\<lambda>s. success s + failed s = cursor s \<and> cursor s \<le> total_recs s)
      (progress_payloads (events (snd (processExcelFile e (fresh dir)))))
    \<and> (\<exists>r. fst (processExcelFile e (fresh dir)) = Inr r \<and> success r + failed r = total_recs r)"
proof -
  let ?n = "length (extract_rows sh)"
  from run_events [OF assms(1), of dir] obtain r w where
    run: "processExcelFile e (fresh dir) = (Inr r, w)"
    and ev: "events w =
        ProgressEvent \<lparr>total_recs = ?n, success = 0, failed = 0,
           errors = [], processing = True, currentIndex = None\<rparr>
        # map (\<lambda>j. ProgressEvent (progress_after e (extract_rows sh) j))
            (filter (\<lambda>j. caught e j = None) [0..<?n])
        @ [CompleteEvent (snapshot r False None)]"
    by blast
  have each: "success (progress_after e (extract_rows sh) j) + failed (progress_after e (extract_rows sh) j)
        = cursor (progress_after e (extract_rows sh) j)
      \<and> cursor (progress_after e (extract_rows sh) j) \<le> total_recs (progress_after e (extract_rows sh) j)"
    if "j < ?n" for j
  proof -
    from that assms(2) have "\<forall>i<j + 1. \<not> (delivered e i \<and> caught e i \<noteq> None)" by simp
    from counted_once [OF this] that show ?thesis
      by (simp add: progress_after_def cursor_def)
  qed
  have "list_all (\<lambda>s. success s + failed s = cursor s \<and> cursor s \<le> total_recs s)
      (progress_payloads (events w))"
    using each by (simp add: ev progress_payloads_map list_all_iff cursor_def)
  moreover from run_results [OF assms(1), of "fresh dir"] run counted_once [OF assms(2)]
  have "success r + failed r = total_recs r" by auto
  ultimately show ?thesis using run by simp
qed

text \<open>The cursors of the progress messages increase strictly.\<close>

lemma cursors_increase:
  assumes "starts e sh"
  shows "sorted_wrt (<) (map cursor (progress_payloads (events (snd (processExcelFile e (fresh dir))))))"
proof -
  let ?n = "length (extract_rows sh)"
  from run_events [OF assms, of dir] obtain r w where
    run: "processExcelFile e (fresh dir) = (Inr r, w)"
    and ev: "events w =
        ProgressEvent \<lparr>total_recs = ?n, success = 0, failed = 0,
           errors = [], processing = True, currentIndex = None\<rparr>
        # map (\<lambda>j. ProgressEvent (progress_after e (extract_rows sh) j))
            (filter (\<lambda>j. caught e j = None) [0..<?n])
        @ [CompleteEvent (snapshot r False None)]"
    by blast
  have c: "cursor (progress_after e rows j) = Suc j" for rows j
    by (simp add: progress_after_def cursor_def)
  have c0: "cursor \<lparr>total_recs = ?n, success = 0, failed = 0,
           errors = [], processing = True, currentIndex = None\<rparr> = 0"
    by (simp add: cursor_def)
  have "sorted_wrt (<) (filter (\<lambda>j. caught e j = None) [0..<?n])"
    by (rule sorted_wrt_filter) simp
  then have "sorted_wrt (<) (map Suc (filter (\<lambda>j. caught e j = None) [0..<?n]))"
    by (simp add: sorted_wrt_map)
  then show ?thesis
    by (simp add: run ev progress_payloads_map c c0 comp_def)
qed

section \<open>The sample inputs\<close>

lemma extract_sheet_three:
  "extract_rows sheet_three =
     [\<lparr>name = ''Ann Lee'', phone = ''9876543210'', email = ''ann@example.com''\<rparr>,
      \<lparr>name = ''Bob  K'', phone = ''9876543211'', email = ''bob@example.com''\<rparr>,
      \<lparr>name = ''Cy'', phone = ''9876543212'', email = ''cy@example.com''\<rparr>]"
  by (simp add: extract_rows_def sheet_three_def header_row_def visit_row_def cell_text_def
      getCell_def trim_def is_ws_def)

lemma starts_sample [simp]: "starts (sample_env sh s u) sh"
  by (simp add: starts_def sample_env_def createTransporter_def)

lemma sample_outcomes [simp]:
  "render_err (sample_env sh s u) j = None"
  "delivered (sample_env sh s u) j = (s j = None)"
  "caught (sample_env sh s u) j = (case s j of Some m \<Rightarrow> Some m | None \<Rightarrow> u j)"
  by (simp_all add: render_err_def delivered_def caught_def sample_env_def never_def
      split: option.splits)

lemma sheet_five_records:
  "filter is_record sheet_five =
     [(2, [Some ''Ann Lee'', Some ''9876543210'', Some ''ann@example.com'']),
      (3, [Some '' Bob  K '', Some ''9876543211'', Some ''bob@example.com'']),
      (5, [Some ''Di'', Some ''9876543213'', Some ''di@example.com'']),
      (6, [Some ''Ed'', Some ''9876543214'', Some ''ed@example.com''])]"
  by (simp add: sheet_five_def header_row_def is_record_def nonblank_def getCell_def trim_def
      is_ws_def)

section \<open>Verified properties\<close>

subsection \<open>Fatal preconditions\<close>

text \<open>
  Claim C5. When the source file cannot be read, the template image is missing or the mail
  sender is not configured, the run throws; it sends exactly one message, an error message
  that carries the message of the failure, and neither a progress nor a completion
  message; nothing is rendered, mailed or removed, so no record is processed.
\<close>

theorem fatal_precondition_aborts:
  assumes "readFileErr e \<noteq> None \<or> \<not> templateExists e \<or> \<not> truthy (EMAIL e) \<or> \<not> truthy (APP_PASSWORD e)"
  shows "\<exists>m. processExcelFile e w0 = (Inl m, w0\<lparr>events := events w0 @ [ErrorEvent m]\<rparr>)
    \<and> m = (case readFileErr e of
             Some x \<Rightarrow> x
           | None \<Rightarrow> if templateExists e then ''Email credentials not configured''
                     else ''Template image not found'')"
  using assms
  by (auto simp: processExcelFile_def try_block_def createTransporter_def ws_send_def
      split: option.splits)

theorem fatal_precondition_aborts_witness:
  "\<not> templateExists ((sample_env sheet_three never never)\<lparr>templateExists := False\<rparr>)
   \<and> processExcelFile ((sample_env sheet_three never never)\<lparr>templateExists := False\<rparr>)
        (fresh Map.empty) =
      (Inl ''Template image not found'',
       \<lparr>events = [ErrorEvent ''Template image not found''], generated = Map.empty, outbox = []\<rparr>)"
  using fatal_precondition_aborts
    [of "(sample_env sheet_three never never)\<lparr>templateExists := False\<rparr>" "fresh Map.empty"]
  by (simp add: sample_env_def fresh_def)

subsection \<open>Image renderer\<close>

text \<open>
  Claim C7. When the template loads as an image of width W and height H and the file can
  be written, \<open>generatePersonalizedImage\<close> returns and the image it stores at the output
  path has width W and height H; and whenever it returns, the stored image has the
  dimensions of the template it loaded.
\<close>

theorem rendered_image_dimensions:
  "(loadImage e i = Inr t \<and> writeErr e i = None \<longrightarrow>
      (\<exists>img. generatePersonalizedImage e i data p dir = (Inr p, dir(p \<mapsto> img))
         \<and> png_width img = width t \<and> png_height img = height t))
   \<and> (\<forall>q dir'. generatePersonalizedImage e i data p dir = (Inr q, dir') \<longrightarrow>
        (\<exists>t img. loadImage e i = Inr t \<and> q = p \<and> dir' = dir(p \<mapsto> img)
           \<and> png_width img = width t \<and> png_height img = height t))"
  by (auto simp: generatePersonalizedImage_def Let_def toBuffer_def draw_def createCanvas_def
      split: sum.splits option.splits)

theorem rendered_image_dimensions_witness:
  "loadImage (sample_env sheet_one never never) 0 = Inr \<lparr>width = 800, height = 600\<rparr>
   \<and> writeErr (sample_env sheet_one never never) 0 = None
   \<and> (\<exists>img. generatePersonalizedImage (sample_env sheet_one never never) 0
          \<lparr>name = ''Ann Lee'', phone = ''9876543210'', email = ''ann@example.com''\<rparr> (Card 1) Map.empty
        = (Inr (Card 1), [Card 1 \<mapsto> img])
        \<and> png_width img = 800 \<and> png_height img = 600)"
  using rendered_image_dimensions [of "sample_env sheet_one never never" 0
      "\<lparr>width = 800, height = 600\<rparr>"
      "\<lparr>name = ''Ann Lee'', phone = ''9876543210'', email = ''ann@example.com''\<rparr>"
      "Card 1" Map.empty]
  by (simp add: sample_env_def never_def)

subsection \<open>Delivery agent\<close>

text \<open>
  Claim C8. For a record, \<open>sendEmail\<close> hands exactly one message to the transport. It is
  addressed to the record's email field, has the fixed subject line, an HTML body that is
  the fixed text around the record's name, and exactly one attachment, whose file name is
  \<^verbatim>\<open>investment-card-\<close>, the record's name with every run of white space replaced by one
  hyphen, and \<^verbatim>\<open>.png\<close>: no white space is left in the name, a name without white space is
  kept, and a run between two parts becomes a hyphen between what becomes of the parts.
\<close>

theorem one_mail_per_record:
  "(\<exists>m a. sendEmail e i r p ob = (sendErr e i, ob @ [m])
      \<and> mail_to m = email r
      \<and> subject m = ''Your Personalized Investment Card''
      \<and> html m = html_before @ name r @ html_after
      \<and> attachments m = [a]
      \<and> filename a = ''investment-card-'' @ replace_ws (name r) @ ''.png''
      \<and> att_path a = p)
   \<and> list_all (\<lambda>c. \<not> is_ws c) (replace_ws (name r))
   \<and> (\<forall>s. list_all (\<lambda>c. \<not> is_ws c) s \<longrightarrow> replace_ws s = s)
   \<and> (\<forall>u w v. w \<noteq> [] \<and> list_all is_ws w \<and> (u = [] \<or> \<not> is_ws (last u)) \<and> (v = [] \<or> \<not> is_ws (hd v))
        \<longrightarrow> replace_ws (u @ w @ v) = replace_ws u @ CHR ''-'' # replace_ws v)"
proof -
  have "\<exists>m a. sendEmail e i r p ob = (sendErr e i, ob @ [m])
      \<and> mail_to m = email r
      \<and> subject m = ''Your Personalized Investment Card''
      \<and> html m = html_before @ name r @ html_after
      \<and> attachments m = [a]
      \<and> filename a = ''investment-card-'' @ replace_ws (name r) @ ''.png''
      \<and> att_path a = p"
    by (simp add: sendEmail_def sendMail_def mailOptions_def)
  moreover have "list_all (\<lambda>c. \<not> is_ws c) (replace_ws (name r))"
    by (simp add: list_all_iff replace_ws_no_ws)
  moreover have "\<forall>s. list_all (\<lambda>c. \<not> is_ws c) s \<longrightarrow> replace_ws s = s"
    by (simp add: list_all_iff replace_ws_id)
  moreover have "\<forall>u w v. w \<noteq> [] \<and> list_all is_ws w \<and> (u = [] \<or> \<not> is_ws (last u)) \<and> (v = [] \<or> \<not> is_ws (hd v))
        \<longrightarrow> replace_ws (u @ w @ v) = replace_ws u @ CHR ''-'' # replace_ws v"
    by (simp add: list_all_iff replace_ws_append replace_ws_run)
  ultimately show ?thesis by blast
qed

theorem one_mail_per_record_witness:
  "sendEmail (sample_env sheet_three never never) 1
      \<lparr>name = ''Bob  K'', phone = ''9876543211'', email = ''bob@example.com''\<rparr> (Card 2) []
    = (None,
       [\<lparr>mail_from = Some ''sender@example.com'', mail_to = ''bob@example.com'',
         subject = ''Your Personalized Investment Card'',
         html = html_before @ ''Bob  K'' @ html_after,
         attachments = [\<lparr>filename = ''investment-card-Bob-K.png'', att_path = Card 2\<rparr>]\<rparr>])
   \<and> replace_ws ''Bob  K'' = ''Bob-K''"
proof -
  let ?e = "sample_env sheet_three never never"
  let ?r = "\<lparr>name = ''Bob  K'', phone = ''9876543211'', email = ''bob@example.com''\<rparr>"
  note inst = one_mail_per_record [of ?e 1 ?r "Card 2" "[]"]
  from inst obtain m a where
    s: "sendEmail ?e 1 ?r (Card 2) [] = (sendErr ?e 1, [] @ [m])"
    and m: "mail_to m = email ?r" "subject m = ''Your Personalized Investment Card''"
      "html m = html_before @ name ?r @ html_after" "attachments m = [a]"
    and a: "filename a = ''investment-card-'' @ replace_ws (name ?r) @ ''.png''" "att_path a = Card 2"
    by blast
  from inst have law: "\<And>u w v. w \<noteq> [] \<and> list_all is_ws w \<and> (u = [] \<or> \<not> is_ws (last u)) \<and> (v = [] \<or> \<not> is_ws (hd v))
        \<Longrightarrow> replace_ws (u @ w @ v) = replace_ws u @ CHR ''-'' # replace_ws v"
    and idl: "\<And>s. list_all (\<lambda>c. \<not> is_ws c) s \<Longrightarrow> replace_ws s = s"
    by blast+
  have "replace_ws (''Bob'' @ ''  '' @ ''K'') = replace_ws ''Bob'' @ CHR ''-'' # replace_ws ''K''"
    by (rule law) (simp add: is_ws_def)
  moreover have "replace_ws ''Bob'' = ''Bob''" by (rule idl) (simp add: is_ws_def)
  moreover have "replace_ws ''K'' = ''K''" by (rule idl) (simp add: is_ws_def)
  ultimately have r: "replace_ws ''Bob  K'' = ''Bob-K''" by simp
  have f: "mail_from m = Some ''sender@example.com''"
    using s by (auto simp: sendEmail_def sendMail_def mailOptions_def sample_env_def)
  have "m = \<lparr>mail_from = Some ''sender@example.com'', mail_to = ''bob@example.com'',
         subject = ''Your Personalized Investment Card'',
         html = html_before @ ''Bob  K'' @ html_after,
         attachments = [\<lparr>filename = ''investment-card-Bob-K.png'', att_path = Card 2\<rparr>]\<rparr>"
    using m a f r by (cases m, cases a) simp
  with s r show ?thesis by (simp add: sample_env_def never_def)
qed

subsection \<open>Record extraction\<close>

text \<open>
  Claim C6. The records of a sheet are its rows after the header row whose first three
  cells are all present and not blank once trimmed (a cell is not blank when it holds a
  character that is not white space), in the order of the sheet and with the trimmed
  texts as fields. Every other row is left out: the total of a run is the number of such
  rows, and failures are counted among the records only, so a row that was left out is
  never a failure.
\<close>

theorem rows_become_records:
  "extract_rows sh = map recipient_of (filter is_record sh)
   \<and> (\<forall>c. nonblank c = (\<exists>s. c = Some s \<and> \<not> list_all is_ws s))
   \<and> (starts e sh \<longrightarrow>
        (\<exists>r w. processExcelFile e w0 = (Inr r, w)
           \<and> total_recs r = length (filter is_record sh)
           \<and> failed r =
               length (filter (\<lambda>j. caught e j \<noteq> None) [0..<length (filter is_record sh)])
           \<and> length (errors r) = failed r))"
proof (intro conjI allI impI)
  show "extract_rows sh = map recipient_of (filter is_record sh)" by (rule extract_rows_eq)
next
  fix c
  show "nonblank c = (\<exists>s. c = Some s \<and> \<not> list_all is_ws s)" by (rule nonblank_iff)
next
  assume "starts e sh"
  from run_results [OF this, of w0] show "\<exists>r w. processExcelFile e w0 = (Inr r, w)
           \<and> total_recs r = length (filter is_record sh)
           \<and> failed r =
               length (filter (\<lambda>j. caught e j \<noteq> None) [0..<length (filter is_record sh)])
           \<and> length (errors r) = failed r"
    by (auto simp: extract_rows_eq)
qed

theorem rows_become_records_witness:
  "starts (sample_env sheet_five never never) sheet_five
   \<and> length sheet_five = 6
   \<and> map name (extract_rows sheet_five) = [''Ann Lee'', ''Bob  K'', ''Di'', ''Ed'']
   \<and> (\<exists>r w. processExcelFile (sample_env sheet_five never never) (fresh Map.empty) = (Inr r, w)
        \<and> total_recs r = 4 \<and> failed r = 0 \<and> errors r = [])"
proof -
  let ?e = "sample_env sheet_five never never"
  have st: "starts ?e sheet_five" by simp
  note inst = rows_become_records [of sheet_five ?e "fresh Map.empty"]
  from inst have ex: "extract_rows sheet_five = map recipient_of (filter is_record sheet_five)"
    by blast
  from inst st obtain r w where run: "processExcelFile ?e (fresh Map.empty) = (Inr r, w)"
    and t: "total_recs r = length (filter is_record sheet_five)"
    and f: "failed r = length (filter (\<lambda>j. caught ?e j \<noteq> None) [0..<length (filter is_record sheet_five)])"
    and l: "length (errors r) = failed r"
    by blast
  from f have f0: "failed r = 0" by (simp add: never_def)
  with l have "errors r = []" by simp
  moreover from t have "total_recs r = 4" by (simp add: sheet_five_records)
  moreover from ex have "map name (extract_rows sheet_five) = [''Ann Lee'', ''Bob  K'', ''Di'', ''Ed'']"
    by (simp add: sheet_five_records recipient_of_def getCell_def trim_def is_ws_def)
  moreover have "length sheet_five = 6" by (simp add: sheet_five_def)
  ultimately show ?thesis using st run f0 by simp
qed

subsection \<open>Failure isolation\<close>

text \<open>
  Claim C3. When rendering or sending throws for a record, the loop body adds one to
  \<open>failed\<close>, appends an entry made of the record's name and the message, and leaves
  \<open>success\<close> as it was. The loop still goes through every record: the run returns, each
  counter is the number of records of its kind among all of them, the error list has the
  entries of the failed records in order, and every record that was rendered is handed to
  the mail transport whatever happened to the records before it. For three records of
  which only the second send throws, the run ends with two successes, one failure and the
  single entry of the second record.
\<close>

theorem failure_isolation:
  "(\<forall>m. render_err e i = Some m \<or> (render_err e i = None \<and> sendErr e i = Some m) \<longrightarrow>
      fst (process_row e i row (r0, w)) =
        r0\<lparr>failed := failed r0 + 1, errors := errors r0 @ [name row @ '': '' @ m]\<rparr>)
   \<and> (starts e sh \<longrightarrow>
        (\<exists>r w'. processExcelFile e w0 = (Inr r, w')
           \<and> total_recs r = length (extract_rows sh)
           \<and> success r = length (filter (delivered e) [0..<length (extract_rows sh)])
           \<and> failed r = length (filter (\<lambda>j. caught e j \<noteq> None) [0..<length (extract_rows sh)])
           \<and> errors r = map (error_entry e (extract_rows sh))
                (filter (\<lambda>j. caught e j \<noteq> None) [0..<length (extract_rows sh)])
           \<and> outbox w' = outbox w0 @
                map (\<lambda>j. mailOptions (EMAIL e) (extract_rows sh ! j) (Card (j + 1)))
                  (filter (\<lambda>j. render_err e j = None) [0..<length (extract_rows sh)])))"
proof (intro conjI allI impI)
  fix m
  assume "render_err e i = Some m \<or> (render_err e i = None \<and> sendErr e i = Some m)"
  then show "fst (process_row e i row (r0, w)) =
      r0\<lparr>failed := failed r0 + 1, errors := errors r0 @ [name row @ '': '' @ m]\<rparr>"
    by (rule process_row_failure)
next
  assume "starts e sh"
  then show "\<exists>r w'. processExcelFile e w0 = (Inr r, w')
           \<and> total_recs r = length (extract_rows sh)
           \<and> success r = length (filter (delivered e) [0..<length (extract_rows sh)])
           \<and> failed r = length (filter (\<lambda>j. caught e j \<noteq> None) [0..<length (extract_rows sh)])
           \<and> errors r = map (error_entry e (extract_rows sh))
                (filter (\<lambda>j. caught e j \<noteq> None) [0..<length (extract_rows sh)])
           \<and> outbox w' = outbox w0 @
                map (\<lambda>j. mailOptions (EMAIL e) (extract_rows sh ! j) (Card (j + 1)))
                  (filter (\<lambda>j. render_err e j = None) [0..<length (extract_rows sh)])"
    by (rule run_results)
qed

theorem failure_isolation_witness:
  "starts (sample_env sheet_three (only_at 1 ''boom'') never) sheet_three
   \<and> (\<exists>w'. processExcelFile (sample_env sheet_three (only_at 1 ''boom'') never) (fresh Map.empty) =
          (Inr \<lparr>total_recs = 3, success = 2, failed = 1, errors = [''Bob  K: boom'']\<rparr>, w')
        \<and> map mail_to (outbox w') = [''ann@example.com'', ''bob@example.com'', ''cy@example.com''])"
proof -
  let ?e = "sample_env sheet_three (only_at 1 ''boom'') never"
  have st: "starts ?e sheet_three" by simp
  have three: "[0..<3] = [0, 1, 2]" by (simp add: upt_rec)
  from failure_isolation [of ?e _ _ _ _ sheet_three "fresh Map.empty"] st
  obtain r w' where run: "processExcelFile ?e (fresh Map.empty) = (Inr r, w')"
    and t: "total_recs r = length (extract_rows sheet_three)"
    and s: "success r = length (filter (delivered ?e) [0..<length (extract_rows sheet_three)])"
    and f: "failed r = length (filter (\<lambda>j. caught ?e j \<noteq> None) [0..<length (extract_rows sheet_three)])"
    and er: "errors r = map (error_entry ?e (extract_rows sheet_three))
                (filter (\<lambda>j. caught ?e j \<noteq> None) [0..<length (extract_rows sheet_three)])"
    and ob: "outbox w' = outbox (fresh Map.empty) @
                map (\<lambda>j. mailOptions (EMAIL ?e) (extract_rows sheet_three ! j) (Card (j + 1)))
                  (filter (\<lambda>j. render_err ?e j = None) [0..<length (extract_rows sheet_three)])"
    by blast
  have "r = \<lparr>total_recs = 3, success = 2, failed = 1, errors = [''Bob  K: boom'']\<rparr>"
    using t s f er
    by (cases r) (simp add: extract_sheet_three three only_at_def never_def error_entry_def)
  moreover have "map mail_to (outbox w') = [''ann@example.com'', ''bob@example.com'', ''cy@example.com'']"
    using ob by (simp add: extract_sheet_three three fresh_def mailOptions_def)
  ultimately show ?thesis using st run by simp
qed

subsection \<open>Error list\<close>

text \<open>
  Claim C10. The loop body keeps the length of the error list equal to \<open>failed\<close>; the
  equality holds in the payload of every progress and completion message of a run and in
  the results it returns; and the entry of a failed record is the one string made of the
  record's name, a colon and a space, and the message that was caught.
\<close>

theorem errors_track_failed:
  "(length (errors r0) = failed r0 \<longrightarrow>
      length (errors (fst (process_row e i row (r0, w)))) = failed (fst (process_row e i row (r0, w))))
   \<and> list_all (\<lambda>s. length (errors s) = failed s)
        (payloads (events (snd (processExcelFile e (fresh dir)))))
   \<and> (\<forall>r. fst (processExcelFile e (fresh dir)) = Inr r \<longrightarrow> length (errors r) = failed r)
   \<and> (starts e sh \<longrightarrow>
        (\<exists>r. fst (processExcelFile e (fresh dir)) = Inr r
           \<and> errors r =
               map (\<lambda>j. name (extract_rows sh ! j) @ '': '' @ the (caught e j))
                 (filter (\<lambda>j. caught e j \<noteq> None) [0..<length (extract_rows sh)])))"
proof -
  have step: "length (errors r0) = failed r0 \<longrightarrow>
      length (errors (fst (process_row e i row (r0, w)))) = failed (fst (process_row e i row (r0, w)))"
    by (simp add: process_row_keeps_length)
  have run: "list_all (\<lambda>s. length (errors s) = failed s)
        (payloads (events (snd (processExcelFile e (fresh dir)))))
      \<and> (\<forall>r. fst (processExcelFile e (fresh dir)) = Inr r \<longrightarrow> length (errors r) = failed r)"
  proof (cases "\<exists>sh'. starts e sh'")
    case True
    then obtain sh' where "starts e sh'" by blast
    from run_lengths [OF this, of dir] show ?thesis by auto
  next
    case False
    then have "\<forall>sh'. \<not> starts e sh'" by blast
    from run_fatal [OF this, of "fresh dir"] show ?thesis by (auto simp: fresh_def)
  qed
  have content: "starts e sh \<longrightarrow>
        (\<exists>r. fst (processExcelFile e (fresh dir)) = Inr r
           \<and> errors r =
               map (\<lambda>j. name (extract_rows sh ! j) @ '': '' @ the (caught e j))
                 (filter (\<lambda>j. caught e j \<noteq> None) [0..<length (extract_rows sh)]))"
  proof
    assume "starts e sh"
    from run_results [OF this, of "fresh dir"] show "\<exists>r. fst (processExcelFile e (fresh dir)) = Inr r
           \<and> errors r =
               map (\<lambda>j. name (extract_rows sh ! j) @ '': '' @ the (caught e j))
                 (filter (\<lambda>j. caught e j \<noteq> None) [0..<length (extract_rows sh)])"
      by (auto simp: error_entry_def [abs_def])
  qed
  from step run content show ?thesis by blast
qed

theorem errors_track_failed_witness:
  "starts (sample_env sheet_three (only_at 0 ''no route'') (only_at 2 ''EACCES'')) sheet_three
   \<and> (\<exists>r. fst (processExcelFile (sample_env sheet_three (only_at 0 ''no route'') (only_at 2 ''EACCES''))
               (fresh Map.empty)) = Inr r
        \<and> errors r = [''Ann Lee: no route'', ''Cy: EACCES'']
        \<and> failed r = 2)"
proof -
  let ?e = "sample_env sheet_three (only_at 0 ''no route'') (only_at 2 ''EACCES'')"
  have st: "starts ?e sheet_three" by simp
  have three: "[0..<3] = [0, 1, 2]" by (simp add: upt_rec)
  note inst = errors_track_failed [where e = ?e and dir = Map.empty and sh = sheet_three]
  from inst st obtain r where run: "fst (processExcelFile ?e (fresh Map.empty)) = Inr r"
    and er: "errors r = map (\<lambda>j. name (extract_rows sheet_three ! j) @ '': '' @ the (caught ?e j))
                 (filter (\<lambda>j. caught ?e j \<noteq> None) [0..<length (extract_rows sheet_three)])"
    by blast
  from inst run have len: "length (errors r) = failed r" by blast
  from er have "errors r = [''Ann Lee: no route'', ''Cy: EACCES'']"
    by (simp add: extract_sheet_three three only_at_def never_def)
  with len run st show ?thesis by auto
qed

subsection \<open>Counters and progress messages\<close>


text \<open>
  Claim C2. A run on a sheet with N records is meant to send one progress message before
  the records and one after each record, then one completion message. With the mail
  library as published, a run on a readable sheet with one record, the template present
  and the sender configured throws at line 158, before the records are extracted: it
  returns nothing and sends one error message, no progress message and no completion
  message.
\<close>

theorem configured_run_sends_no_progress:
  "length (extract_rows sheet_one) = 1
   \<and> fst (processExcelFile (published_env sheet_one never never) (fresh Map.empty))
     = Inl ''nodemailer.createTransporter is not a function''
   \<and> events (snd (processExcelFile (published_env sheet_one never never) (fresh Map.empty)))
     = [ErrorEvent ''nodemailer.createTransporter is not a function'']
   \<and> progress_payloads
       (events (snd (processExcelFile (published_env sheet_one never never) (fresh Map.empty))))
     = []"
  by code_simp

text \<open>
  With a library that has the factory the code calls, the loop body sends the progress
  message at the end of its \<^verbatim>\<open>try\<close> block only, so a record for which something is caught
  sends none (\<open>progress_count\<close>; the cursors still increase, \<open>cursors_increase\<close>): one
  record whose send throws gives the initial progress message and the completion
  message, one progress message instead of two.
\<close>

lemma failed_record_sends_no_progress:
  "events (snd (processExcelFile (sample_env sheet_one (only_at 0 ''boom'') never) (fresh Map.empty)))
     = [ProgressEvent \<lparr>total_recs = 1, success = 0, failed = 0, errors = [],
          processing = True, currentIndex = None\<rparr>,
        CompleteEvent \<lparr>total_recs = 1, success = 0, failed = 1, errors = [''Ann Lee: boom''],
          processing = False, currentIndex = None\<rparr>]"
  by code_simp

subsection \<open>Generated images\<close>


subsection \<open>Determinism\<close>


end
